theory Spec2Isabelle
  imports Complex_Main "HOL-Library.Sublist" "HOL-Library.Char_ord" "HOL-Library.List_Lexorder"
begin

section \<open>The QtIFW resolver of find-qtifw.ts\<close>

text \<open>
  The three resolvers of \<^verbatim>\<open>src/find-qtifw.ts\<close>: \<^verbatim>\<open>requestQtIndex\<close> (version discovery),
  \<^verbatim>\<open>getInstallerLinkForSpecificVersion\<close> (artifact selection) and
  \<^verbatim>\<open>getMirrorLinkForSpecificLink\<close> (mirror selection), with \<^verbatim>\<open>getInstallerExtension\<close>.

  What the file takes from outside is an argument of the model:
  \<^item> the answer of an HTTP request is \<open>None\<close> when the request failed and \<open>Some\<close> of the
    elements the selector finds in the parsed document, in document order;
  \<^item> the functions of the \<^verbatim>\<open>semver\<close> package that read text (\<^verbatim>\<open>coerce\<close>, the \<^verbatim>\<open>Range\<close>
    constructor, the \<^verbatim>\<open>SemVer\<close> constructor) and \<^verbatim>\<open>url.resolve\<close> are function arguments;
  \<^item> the conversion of text to a number (the unary plus) is a function argument;
  \<^item> the three platform constants of \<^verbatim>\<open>./utils\<close> are arguments.
  A thrown value is \<open>Inl\<close> of an \<open>error\<close>, a returned one is \<open>Inr\<close>.
\<close>

subsection \<open>Strings\<close>

definition endsWith :: "string \<Rightarrow> string \<Rightarrow> bool" where
  "endsWith s searchString = suffix searchString s"

definition includesStr :: "string \<Rightarrow> string \<Rightarrow> bool" where
  "includesStr s searchString = sublist searchString s"

text \<open>Strings are lists of 8-bit characters; \<^verbatim>\<open>toLowerCase\<close> is modelled on the ASCII letters.\<close>

definition toLowerCaseChar :: "char \<Rightarrow> char" where
  "toLowerCaseChar c =
     (if CHR ''A'' \<le> c \<and> c \<le> CHR ''Z'' then char_of (of_char c + (32::nat)) else c)"

definition toLowerCase :: "string \<Rightarrow> string" where
  "toLowerCase s = map toLowerCaseChar s"

text \<open>A string is falsy exactly when it is empty.\<close>

definition truthy :: "string \<Rightarrow> bool" where
  "truthy s = (s \<noteq> [])"

text \<open>\<^verbatim>\<open>x == null\<close> holds of \<^verbatim>\<open>null\<close> and \<^verbatim>\<open>undefined\<close> only, so of no string.\<close>

definition looseEqualsNull :: "string \<Rightarrow> bool" where
  "looseEqualsNull s = False"

subsection \<open>Versions of the semver package\<close>

text \<open>
  A \<^verbatim>\<open>SemVer\<close> object: the three numbers and the pre-release identifiers (numeric ones as
  numbers). Build metadata takes no part in comparison nor in \<^verbatim>\<open>.version\<close> and is left out.
\<close>

datatype preId = NumId nat | StrId string

record SemVer =
  major :: nat
  minor :: nat
  patch :: nat
  prerelease :: "preId list"

fun showNat :: "nat \<Rightarrow> string" where
  "showNat n =
     (if n < 10 then [''0123456789'' ! n]
      else showNat (n div 10) @ [''0123456789'' ! (n mod 10)])"

declare showNat.simps [simp del]

fun showId :: "preId \<Rightarrow> string" where
  "showId (NumId n) = showNat n"
| "showId (StrId s) = s"

fun joinDots :: "string list \<Rightarrow> string" where
  "joinDots [] = []"
| "joinDots [s] = s"
| "joinDots (s # t # rest) = s @ ''.'' @ joinDots (t # rest)"

text \<open>The \<^verbatim>\<open>version\<close> field: the canonical text of the version.\<close>

definition version :: "SemVer \<Rightarrow> string" where
  "version v =
     showNat (major v) @ ''.'' @ showNat (minor v) @ ''.'' @ showNat (patch v) @
     (if prerelease v = [] then [] else ''-'' @ joinDots (map showId (prerelease v)))"

text \<open>
  \<^verbatim>\<open>SemVer.compare\<close>: the precedence of semantic versioning, as \<open>-1\<close>, \<open>0\<close> or \<open>1\<close>.
  Major, minor and patch are compared as numbers; a version with a pre-release is below
  the same version without; pre-release identifiers are compared one by one, a numeric
  one below a textual one, numbers by value, text by character codes, and a list that
  runs out first is the lower one.
\<close>

definition compareNum :: "nat \<Rightarrow> nat \<Rightarrow> int" where
  "compareNum a b = (if a = b then 0 else if a < b then - 1 else 1)"

fun compareIdentifiers :: "preId \<Rightarrow> preId \<Rightarrow> int" where
  "compareIdentifiers (NumId a) (NumId b) = compareNum a b"
| "compareIdentifiers (NumId a) (StrId b) = - 1"
| "compareIdentifiers (StrId a) (NumId b) = 1"
| "compareIdentifiers (StrId a) (StrId b) = (if a = b then 0 else if a < b then - 1 else 1)"

definition compareMain :: "SemVer \<Rightarrow> SemVer \<Rightarrow> int" where
  "compareMain a b =
     (if compareNum (major a) (major b) \<noteq> 0 then compareNum (major a) (major b)
      else if compareNum (minor a) (minor b) \<noteq> 0 then compareNum (minor a) (minor b)
      else compareNum (patch a) (patch b))"

fun comparePreList :: "preId list \<Rightarrow> preId list \<Rightarrow> int" where
  "comparePreList [] [] = 0"
| "comparePreList (a # as) [] = 1"
| "comparePreList [] (b # bs) = - 1"
| "comparePreList (a # as) (b # bs) =
     (if a = b then comparePreList as bs else compareIdentifiers a b)"

definition comparePre :: "SemVer \<Rightarrow> SemVer \<Rightarrow> int" where
  "comparePre a b =
     (if prerelease a \<noteq> [] \<and> prerelease b = [] then - 1
      else if prerelease a = [] \<and> prerelease b \<noteq> [] then 1
      else if prerelease a = [] \<and> prerelease b = [] then 0
      else comparePreList (prerelease a) (prerelease b))"

definition compare :: "SemVer \<Rightarrow> SemVer \<Rightarrow> int" where
  "compare a b = (if compareMain a b \<noteq> 0 then compareMain a b else comparePre a b)"

definition gte :: "SemVer \<Rightarrow> SemVer \<Rightarrow> bool" where
  "gte a b = (compare a b \<ge> 0)"

text \<open>
  \<^verbatim>\<open>semver.maxSatisfying(versions, range)\<close>: \<open>None\<close> (\<^verbatim>\<open>null\<close>) when the range text does not
  parse; otherwise the loop over the versions that keeps the running maximum of those the
  range accepts, replacing it only by a strictly greater one.
\<close>

definition maxStep :: "(SemVer \<Rightarrow> bool) \<Rightarrow> SemVer \<Rightarrow> SemVer option \<Rightarrow> SemVer option" where
  "maxStep test v maxv =
     (if test v then
        (case maxv of
           None \<Rightarrow> Some v
         | Some m \<Rightarrow> if compare m v = - 1 then Some v else Some m)
      else maxv)"

definition maxSatisfying ::
  "(string \<Rightarrow> (SemVer \<Rightarrow> bool) option) \<Rightarrow> SemVer list \<Rightarrow> string \<Rightarrow> SemVer option" where
  "maxSatisfying mkRange versions rangeText =
     (case mkRange rangeText of
        None \<Rightarrow> None
      | Some test \<Rightarrow> fold (maxStep test) versions None)"

subsection \<open>Documents and errors\<close>

text \<open>A link of a listing page (\<^verbatim>\<open>table tbody tr td a\<close>): its text and its \<^verbatim>\<open>href\<close>, if any.\<close>

record anchor =
  linkText :: string
  href :: "string option"

text \<open>A \<^verbatim>\<open>url\<close> element of a metalink document: its text and its \<^verbatim>\<open>priority\<close> attribute.\<close>

record urlElem =
  elemText :: string
  priorityAttr :: "string option"

datatype error =
    FetchError string
  | NoMatchingVersion "SemVer list"
  | UnsupportedPlatform string
  | InvalidVersion string
  | ArtifactNotFound string string
  | NoMirrorsAvailable string

definition ROOT_QTIFW_URL :: string where
  "ROOT_QTIFW_URL = ''https://download.qt.io/official_releases/qt-installer-framework/''"

subsection \<open>requestQtIndex\<close>

fun parseQtIndex :: "(string \<Rightarrow> SemVer option) \<Rightarrow> anchor list \<Rightarrow> SemVer list" where
  "parseQtIndex coerce [] = []"
| "parseQtIndex coerce (elem # rest) =
     (case coerce (linkText elem) of
        None \<Rightarrow> parseQtIndex coerce rest
      | Some v \<Rightarrow> v # parseQtIndex coerce rest)"

definition requestQtIndex ::
  "(string \<Rightarrow> SemVer option) \<Rightarrow> (string \<Rightarrow> (SemVer \<Rightarrow> bool) option) \<Rightarrow>
   anchor list option \<Rightarrow> string \<Rightarrow> error + string" where
  "requestQtIndex coerce mkRange response requestedVersion =
     (case response of
        None \<Rightarrow> Inl (FetchError ROOT_QTIFW_URL)
      | Some resp \<Rightarrow>
          (let versions = parseQtIndex coerce resp in
           case maxSatisfying mkRange versions requestedVersion of
             None \<Rightarrow> Inl (NoMatchingVersion versions)
           | Some maxVersion \<Rightarrow> Inr (version maxVersion)))"

subsection \<open>getInstallerExtension\<close>

definition getInstallerExtension ::
  "string \<Rightarrow> string \<Rightarrow> string \<Rightarrow> string \<Rightarrow> error + string" where
  "getInstallerExtension PLATFORM_WINDOWS PLATFORM_DARWIN PLATFORM_LINUX platform =
     (if platform = PLATFORM_WINDOWS then Inr ''exe''
      else if platform = PLATFORM_DARWIN then Inr ''dmg''
      else if platform = PLATFORM_LINUX then Inr ''run''
      else Inl (UnsupportedPlatform platform))"

subsection \<open>getInstallerLinkForSpecificVersion\<close>

text \<open>The literals \<^verbatim>\<open>'4.7.0'\<close> and \<^verbatim>\<open>'4.8.1'\<close> as versions.\<close>

definition v4_7_0 :: SemVer where
  "v4_7_0 = \<lparr>major = 4, minor = 7, patch = 0, prerelease = []\<rparr>"

definition v4_8_1 :: SemVer where
  "v4_8_1 = \<lparr>major = 4, minor = 8, patch = 1, prerelease = []\<rparr>"

text \<open>The condition of the loop body on one link.\<close>

definition linkSelected :: "string \<Rightarrow> bool \<Rightarrow> bool \<Rightarrow> string \<Rightarrow> string option \<Rightarrow> bool" where
  "linkSelected installerExtension linux_has_arm64 windows_has_arm64 arch thisLink =
     (case thisLink of
        None \<Rightarrow> False
      | Some l \<Rightarrow>
          truthy l \<and> endsWith l installerExtension \<and>
          (installerExtension \<noteq> ''run'' \<or> \<not> linux_has_arm64 \<or> includesStr l arch) \<and>
          (installerExtension \<noteq> ''exe'' \<or> \<not> windows_has_arm64 \<or> includesStr l arch))"

text \<open>The loop over the links: a selected link overwrites \<^verbatim>\<open>installerLink\<close>.\<close>

fun eachLink ::
  "(string \<Rightarrow> string \<Rightarrow> string) \<Rightarrow> string \<Rightarrow> string \<Rightarrow> bool \<Rightarrow> bool \<Rightarrow> string \<Rightarrow>
   anchor list \<Rightarrow> string \<Rightarrow> string" where
  "eachLink resolve qtPageUrl installerExtension linux_has_arm64 windows_has_arm64 arch
     [] installerLink = installerLink"
| "eachLink resolve qtPageUrl installerExtension linux_has_arm64 windows_has_arm64 arch
     (elem # rest) installerLink =
     eachLink resolve qtPageUrl installerExtension linux_has_arm64 windows_has_arm64 arch rest
       (case href elem of
          None \<Rightarrow> installerLink
        | Some thisLink \<Rightarrow>
            if linkSelected installerExtension linux_has_arm64 windows_has_arm64 arch
                 (Some thisLink)
            then resolve qtPageUrl thisLink
            else installerLink)"

text \<open>
  \<^verbatim>\<open>semver.gte(requestedVersion, ...)\<close> builds a \<^verbatim>\<open>SemVer\<close> from the text and throws when
  it is no version: \<open>parse\<close> is that constructor, \<open>None\<close> when it throws.
\<close>

definition getInstallerLinkForSpecificVersion ::
  "(string \<Rightarrow> string \<Rightarrow> string) \<Rightarrow> (string \<Rightarrow> SemVer option) \<Rightarrow> anchor list option \<Rightarrow>
   string \<Rightarrow> string \<Rightarrow> string \<Rightarrow> error + string" where
  "getInstallerLinkForSpecificVersion resolve parse response requestedVersion
     installerExtension arch =
     (let qtPageUrl = resolve ROOT_QTIFW_URL requestedVersion @ ''/'' in
      case parse requestedVersion of
        None \<Rightarrow> Inl (InvalidVersion requestedVersion)
      | Some v \<Rightarrow>
          (let linux_has_arm64 = gte v v4_7_0;
               windows_has_arm64 = gte v v4_8_1
           in case response of
                None \<Rightarrow> Inl (FetchError qtPageUrl)
              | Some resp \<Rightarrow>
                  (let installerLink =
                         eachLink resolve qtPageUrl installerExtension linux_has_arm64
                           windows_has_arm64 arch resp []
                   in if looseEqualsNull installerLink
                      then Inl (ArtifactNotFound requestedVersion installerExtension)
                      else Inr installerLink)))"

subsection \<open>getMirrorLinkForSpecificLink\<close>

text \<open>
  A number is \<^verbatim>\<open>NaN\<close> or a value; only the sign of a difference is used, so the values
  are taken as rationals.
\<close>

datatype number = NaN | Num rat

record IMirror =
  priority :: number
  url :: string

definition filterOutUrl :: "string \<Rightarrow> string list option \<Rightarrow> bool" where
  "filterOutUrl link alreadyTriedUrls =
     (case alreadyTriedUrls of
        None \<Rightarrow> False
      | Some tried \<Rightarrow>
          fold (\<lambda>blacklisted isUrlBlackListed.
                  if includesStr (toLowerCase link) (toLowerCase blacklisted) then True
                  else isUrlBlackListed)
            tried False)"

definition blacklisteds :: "string list" where
  "blacklisteds =
     [''mirrors.ocf.berkeley.edu'', ''mirrors.ustc.edu.cn'',
      ''mirrors.tuna.tsinghua.edu.cn'', ''mirrors.geekpie.club'']"

definition isUrlBlackListed :: "string \<Rightarrow> bool" where
  "isUrlBlackListed link = filterOutUrl link (Some blacklisteds)"

text \<open>The loop over the \<^verbatim>\<open>url\<close> elements: the mirrors pushed, in document order.\<close>

fun eachUrl :: "(string \<Rightarrow> number) \<Rightarrow> string list option \<Rightarrow> urlElem list \<Rightarrow> IMirror list" where
  "eachUrl toNumber alreadyTriedUrls [] = []"
| "eachUrl toNumber alreadyTriedUrls (elem # rest) =
     (case priorityAttr elem of
        None \<Rightarrow> eachUrl toNumber alreadyTriedUrls rest
      | Some thisPriority \<Rightarrow>
          if truthy (elemText elem) \<and> truthy thisPriority then
            (if isUrlBlackListed (elemText elem) then eachUrl toNumber alreadyTriedUrls rest
             else if filterOutUrl (elemText elem) alreadyTriedUrls
               then eachUrl toNumber alreadyTriedUrls rest
             else \<lparr>priority = toNumber thisPriority, url = elemText elem\<rparr>
                    # eachUrl toNumber alreadyTriedUrls rest)
          else eachUrl toNumber alreadyTriedUrls rest)"

text \<open>
  \<^verbatim>\<open>mirrors.sort((a, b) => a.priority - b.priority)\<close>. The subtraction is \<^verbatim>\<open>NaN\<close> when an
  operand is; the sort reads a \<^verbatim>\<open>NaN\<close> from the comparison function as \<open>0\<close>, a tie. The
  sort is stable: it is modelled as the insertion sort that puts an element before the
  first one it does not compare greater than. When no priority is \<^verbatim>\<open>NaN\<close> the comparison
  function is consistent and the language fixes the sorted array; the theorem on the
  order is stated there. With a \<^verbatim>\<open>NaN\<close> the language leaves the order to the engine; the
  model keeps tied elements in their order, as the engine of Node.js does on the sample
  documents below, where every comparison is a tie.
\<close>

fun minus_number :: "number \<Rightarrow> number \<Rightarrow> number" where
  "minus_number (Num a) (Num b) = Num (a - b)"
| "minus_number NaN b = NaN"
| "minus_number a NaN = NaN"

definition comparefn :: "IMirror \<Rightarrow> IMirror \<Rightarrow> number" where
  "comparefn a b = minus_number (priority a) (priority b)"

definition sortCompare :: "IMirror \<Rightarrow> IMirror \<Rightarrow> rat" where
  "sortCompare a b = (case comparefn a b of NaN \<Rightarrow> 0 | Num v \<Rightarrow> v)"

fun insertSorted :: "IMirror \<Rightarrow> IMirror list \<Rightarrow> IMirror list" where
  "insertSorted x [] = [x]"
| "insertSorted x (y # ys) =
     (if sortCompare x y \<le> 0 then x # y # ys else y # insertSorted x ys)"

definition sortMirrors :: "IMirror list \<Rightarrow> IMirror list" where
  "sortMirrors mirrors = foldr insertSorted mirrors []"

definition getMirrorLinkForSpecificLink ::
  "(string \<Rightarrow> number) \<Rightarrow> urlElem list option \<Rightarrow> string \<Rightarrow> string list option \<Rightarrow>
   error + string" where
  "getMirrorLinkForSpecificLink toNumber response originalUrl alreadyTriedUrls =
     (let metaUrl = originalUrl @ ''.meta4'' in
      case response of
        None \<Rightarrow> Inl (FetchError metaUrl)
      | Some resp \<Rightarrow>
          (let mirrors = eachUrl toNumber alreadyTriedUrls resp in
           if length mirrors = 0 then Inl (NoMirrorsAvailable metaUrl)
           else Inr (url (sortMirrors mirrors ! 0))))"

subsection \<open>Notions the properties are stated with\<close>

text \<open>
  \<^verbatim>\<open>semver.satisfies\<close>: the version is accepted by the range the text denotes; no version
  satisfies a text that is no range.
\<close>

definition satisfies :: "(string \<Rightarrow> (SemVer \<Rightarrow> bool) option) \<Rightarrow> SemVer \<Rightarrow> string \<Rightarrow> bool" where
  "satisfies mkRange v rangeText =
     (case mkRange rangeText of None \<Rightarrow> False | Some test \<Rightarrow> test v)"

text \<open>
  The selection predicate of the artifact locator in the words of the specification: the
  path ends with the extension; for \<^verbatim>\<open>run\<close> from 4.7.0 on and for \<^verbatim>\<open>exe\<close> from 4.8.1 on it
  also contains the architecture token.
\<close>

definition qualifies :: "SemVer \<Rightarrow> string \<Rightarrow> string \<Rightarrow> string \<Rightarrow> bool" where
  "qualifies v extension arch path =
     (endsWith path extension \<and>
      (extension = ''run'' \<and> gte v v4_7_0 \<longrightarrow> includesStr path arch) \<and>
      (extension = ''exe'' \<and> gte v v4_8_1 \<longrightarrow> includesStr path arch))"

text \<open>Mirror \<open>a\<close> has a numerically lower priority than mirror \<open>b\<close>.\<close>

definition lowerPriority :: "IMirror \<Rightarrow> IMirror \<Rightarrow> bool" where
  "lowerPriority a b =
     (case priority a of
        NaN \<Rightarrow> False
      | Num x \<Rightarrow> (case priority b of NaN \<Rightarrow> False | Num y \<Rightarrow> x < y))"

subsection \<open>Sample arguments\<close>

text \<open>
  Instances of the function arguments, to evaluate the resolvers on sample documents.
  \<open>readVersion\<close> reads text of the form \<^verbatim>\<open>N.N.N\<close> and nothing else: on such text (small
  numbers without leading zeros) \<^verbatim>\<open>semver.coerce\<close> and the \<^verbatim>\<open>SemVer\<close> constructor give this
  version, and on text without a digit \<^verbatim>\<open>semver.coerce\<close> gives \<^verbatim>\<open>null\<close>. \<open>caretRange\<close> reads
  a caret range over such a version and no other range. \<open>joinUrl\<close> is \<^verbatim>\<open>url.resolve\<close> on
  a base that ends with a slash and a plain relative name. \<open>readNumber\<close> gives a run of
  decimal digits its value and \<^verbatim>\<open>NaN\<close> to any other text; the unary plus does the same
  on a run of digits and on the words \<^verbatim>\<open>abc\<close> and \<^verbatim>\<open>first\<close> of the sample documents.
\<close>

definition isDigit :: "char \<Rightarrow> bool" where
  "isDigit c = (CHR ''0'' \<le> c \<and> c \<le> CHR ''9'')"

definition isDigits :: "string \<Rightarrow> bool" where
  "isDigits s = (s \<noteq> [] \<and> list_all isDigit s)"

definition readNat :: "string \<Rightarrow> nat" where
  "readNat ds = foldl (\<lambda>n c. 10 * n + (of_char c - 48)) 0 ds"

fun splitDots :: "string \<Rightarrow> string list" where
  "splitDots [] = [[]]"
| "splitDots (c # cs) =
     (if c = CHR ''.'' then [] # splitDots cs
      else (case splitDots cs of [] \<Rightarrow> [[c]] | w # ws \<Rightarrow> (c # w) # ws))"

definition readVersion :: "string \<Rightarrow> SemVer option" where
  "readVersion s =
     (case splitDots s of
        [a, b, c] \<Rightarrow>
          if isDigits a \<and> isDigits b \<and> isDigits c
          then Some \<lparr>major = readNat a, minor = readNat b, patch = readNat c, prerelease = []\<rparr>
          else None
      | _ \<Rightarrow> None)"

definition caretUpper :: "SemVer \<Rightarrow> SemVer" where
  "caretUpper v =
     (if major v > 0 then \<lparr>major = major v + 1, minor = 0, patch = 0, prerelease = []\<rparr>
      else if minor v > 0 then \<lparr>major = 0, minor = minor v + 1, patch = 0, prerelease = []\<rparr>
      else \<lparr>major = 0, minor = 0, patch = patch v + 1, prerelease = []\<rparr>)"

definition caretRange :: "string \<Rightarrow> (SemVer \<Rightarrow> bool) option" where
  "caretRange s =
     (case s of
        [] \<Rightarrow> None
      | c # rest \<Rightarrow>
          if c = CHR ''^'' then
            (case readVersion rest of
               None \<Rightarrow> None
             | Some lo \<Rightarrow>
                 Some (\<lambda>v. prerelease v = [] \<and> compare v lo \<ge> 0 \<and>
                            compare v (caretUpper lo) < 0))
          else None)"

definition joinUrl :: "string \<Rightarrow> string \<Rightarrow> string" where
  "joinUrl base relative = base @ relative"

definition readNumber :: "string \<Rightarrow> number" where
  "readNumber s = (if isDigits s then Num (of_nat (readNat s)) else NaN)"

text \<open>A root listing: two versions, the parent link and a label that is no version.\<close>

definition sampleIndex :: "anchor list" where
  "sampleIndex =
     [\<lparr>linkText = ''Parent Directory'', href = Some ''../''\<rparr>,
      \<lparr>linkText = ''4.5.0'', href = Some ''4.5.0/''\<rparr>,
      \<lparr>linkText = ''4.6.1'', href = Some ''4.6.1/''\<rparr>,
      \<lparr>linkText = ''notaversion'', href = None\<rparr>]"

text \<open>A root listing without any version.\<close>

definition sampleIndexNoVersion :: "anchor list" where
  "sampleIndexNoVersion =
     [\<lparr>linkText = ''Parent Directory'', href = Some ''../''\<rparr>,
      \<lparr>linkText = ''notaversion'', href = Some ''notaversion/''\<rparr>]"

text \<open>A release listing with installers for two architectures, the wanted one first.\<close>

definition sampleRelease :: "anchor list" where
  "sampleRelease =
     [\<lparr>linkText = ''Parent Directory'', href = Some ''../''\<rparr>,
      \<lparr>linkText = ''installer-arm64.run'', href = Some ''installer-arm64.run''\<rparr>,
      \<lparr>linkText = ''installer-x64.run'', href = Some ''installer-x64.run''\<rparr>,
      \<lparr>linkText = ''installer-x64.exe'', href = Some ''installer-x64.exe''\<rparr>,
      \<lparr>linkText = ''no target'', href = None\<rparr>]"

text \<open>A release listing without a macOS installer.\<close>

definition sampleReleaseNoDmg :: "anchor list" where
  "sampleReleaseNoDmg =
     [\<lparr>linkText = ''Parent Directory'', href = Some ''../''\<rparr>,
      \<lparr>linkText = ''installer-x64.exe'', href = Some ''installer-x64.exe''\<rparr>]"

text \<open>Metalink documents.\<close>

definition sampleMeta :: "urlElem list" where
  "sampleMeta =
     [\<lparr>elemText = ''https://a.example/f.run'', priorityAttr = Some ''20''\<rparr>,
      \<lparr>elemText = ''https://b.example/f.run'', priorityAttr = Some ''10''\<rparr>,
      \<lparr>elemText = ''https://c.example/f.run'', priorityAttr = Some ''10''\<rparr>]"

definition sampleMetaWord :: "urlElem list" where
  "sampleMetaWord =
     [\<lparr>elemText = ''https://a.example/f.run'', priorityAttr = Some ''abc''\<rparr>,
      \<lparr>elemText = ''https://b.example/f.run'', priorityAttr = Some ''10''\<rparr>]"

definition sampleMetaOneWord :: "urlElem list" where
  "sampleMetaOneWord =
     [\<lparr>elemText = ''https://a.example/f.run'', priorityAttr = Some ''first''\<rparr>]"

definition sampleMetaGone :: "urlElem list" where
  "sampleMetaGone =
     [\<lparr>elemText = ''https://MIRRORS.ustc.edu.cn/qt/f.run'', priorityAttr = Some ''1''\<rparr>,
      \<lparr>elemText = ''https://b.example/f.run'', priorityAttr = Some ''2''\<rparr>,
      \<lparr>elemText = ''https://c.example/f.run'', priorityAttr = None\<rparr>]"

section \<open>The order of versions\<close>

lemma compareNum_cases: "compareNum a b = - 1 \<or> compareNum a b = 0 \<or> compareNum a b = 1"
  by (simp add: compareNum_def)

lemma compareIdentifiers_range:
  "compareIdentifiers a b = - 1 \<or> compareIdentifiers a b = 0 \<or> compareIdentifiers a b = 1"
  by (cases a; cases b) (simp_all add: compareNum_def)

lemma compareIdentifiers_eq [simp]: "compareIdentifiers a b = 0 \<longleftrightarrow> a = b"
  by (cases a; cases b) (simp_all add: compareNum_def)

lemma compareIdentifiers_flip: "compareIdentifiers b a = - compareIdentifiers a b"
  by (cases a; cases b) (auto simp: compareNum_def)

lemma compareIdentifiers_trans:
  "compareIdentifiers a b \<le> 0 \<Longrightarrow> compareIdentifiers b c \<le> 0 \<Longrightarrow> compareIdentifiers a c \<le> 0"
  by (cases a; cases b; cases c) (auto simp: compareNum_def split: if_splits)

lemma comparePreList_range:
  "comparePreList p q = - 1 \<or> comparePreList p q = 0 \<or> comparePreList p q = 1"
  using compareIdentifiers_range by (induction p q rule: comparePreList.induct) auto

lemma comparePreList_eq [simp]: "comparePreList p q = 0 \<longleftrightarrow> p = q"
  by (induction p q rule: comparePreList.induct) auto

lemma comparePreList_flip: "comparePreList q p = - comparePreList p q"
proof (induction p q rule: comparePreList.induct)
  case (4 a as b bs)
  then show ?case using compareIdentifiers_flip [of a b] by auto
qed simp_all

lemma comparePreList_trans:
  "comparePreList p q \<le> 0 \<Longrightarrow> comparePreList q r \<le> 0 \<Longrightarrow> comparePreList p r \<le> 0"
proof (induction p q arbitrary: r rule: comparePreList.induct)
  case 1
  then show ?case by simp
next
  case (2 a as)
  then show ?case by simp
next
  case (3 b bs)
  then show ?case by (cases r) simp_all
next
  case (4 a as b bs)
  show ?case
  proof (cases r)
    case Nil
    with 4 show ?thesis by simp
  next
    case (Cons c cs)
    show ?thesis
    proof (cases "a = b")
      case True
      with 4 Cons show ?thesis by (auto split: if_splits)
    next
      case ab: False
      show ?thesis
      proof (cases "b = c")
        case True
        with 4 Cons ab show ?thesis by (auto split: if_splits)
      next
        case bc: False
        from 4(2) ab have 1: "compareIdentifiers a b \<le> 0" by simp
        from 4(3) bc Cons have 2: "compareIdentifiers b c \<le> 0" by simp
        have 3: "compareIdentifiers a c \<le> 0" by (rule compareIdentifiers_trans [OF 1 2])
        have "a \<noteq> c"
        proof
          assume "a = c"
          with 2 have "compareIdentifiers b a \<le> 0" by simp
          with 1 compareIdentifiers_flip [of a b] have "compareIdentifiers a b = 0" by simp
          with ab show False by simp
        qed
        with 3 Cons show ?thesis by simp
      qed
    qed
  qed
qed

lemma comparePre_flip: "comparePre b a = - comparePre a b"
  using comparePreList_flip [of "prerelease a" "prerelease b"]
  by (auto simp: comparePre_def)

lemma comparePre_trans:
  "comparePre a b \<le> 0 \<Longrightarrow> comparePre b c \<le> 0 \<Longrightarrow> comparePre a c \<le> 0"
  unfolding comparePre_def
  using comparePreList_trans [of "prerelease a" "prerelease b" "prerelease c"]
  by (auto split: if_splits)

lemma compareMain_flip: "compareMain b a = - compareMain a b"
  by (auto simp: compareMain_def compareNum_def)

lemma compareMain_eq: "compareMain a b = 0 \<longleftrightarrow> major a = major b \<and> minor a = minor b \<and> patch a = patch b"
  by (auto simp: compareMain_def compareNum_def)

lemma compareMain_trans:
  "compareMain a b \<le> 0 \<Longrightarrow> compareMain b c \<le> 0 \<Longrightarrow> compareMain a c \<le> 0"
  by (auto simp: compareMain_def compareNum_def split: if_splits)

lemma compareMain_strict:
  "compareMain a b \<le> 0 \<Longrightarrow> compareMain b c \<le> 0 \<Longrightarrow> compareMain a c = 0 \<Longrightarrow>
   compareMain a b = 0 \<and> compareMain b c = 0"
  by (auto simp: compareMain_def compareNum_def split: if_splits)

lemma compare_range: "compare a b = - 1 \<or> compare a b = 0 \<or> compare a b = 1"
  using comparePreList_range [of "prerelease a" "prerelease b"]
  by (auto simp: compare_def compareMain_def comparePre_def compareNum_def)

lemma compare_refl: "compare a a = 0"
  by (simp add: compare_def compareMain_def comparePre_def compareNum_def)

lemma compare_flip: "compare b a = - compare a b"
  using compareMain_flip [of a b] comparePre_flip [of a b]
  by (simp add: compare_def)

lemma compare_trans:
  assumes "compare a b \<le> 0" and "compare b c \<le> 0"
  shows "compare a c \<le> 0"
proof -
  have ab: "compareMain a b \<le> 0" using assms(1) 
    by (auto simp: compare_def split: if_splits)
  have bc: "compareMain b c \<le> 0" using assms(2)
    by (auto simp: compare_def split: if_splits)
  have ac: "compareMain a c \<le> 0" by (rule compareMain_trans [OF ab bc])
  show ?thesis
  proof (cases "compareMain a c = 0")
    case False
    with ac show ?thesis by (simp add: compare_def)
  next
    case True
    from compareMain_strict [OF ab bc True]
    have "compareMain a b = 0" "compareMain b c = 0" by simp_all
    with assms have "comparePre a b \<le> 0" "comparePre b c \<le> 0"
      by (simp_all add: compare_def)
    then have "comparePre a c \<le> 0" by (rule comparePre_trans)
    with True show ?thesis by (simp add: compare_def)
  qed
qed

section \<open>Version resolution\<close>

lemma fold_maxStep_Some:
  "\<exists>m'. fold (maxStep test) vs (Some m) = Some m' \<and> (m' = m \<or> (m' \<in> set vs \<and> test m')) \<and>
        compare m m' \<le> 0 \<and> (\<forall>w\<in>set vs. test w \<longrightarrow> compare w m' \<le> 0)"
proof (induction vs arbitrary: m)
  case Nil
  then show ?case by (simp add: compare_refl)
next
  case (Cons v vs)
  show ?case
  proof (cases "test v \<and> compare m v = - 1")
    case True
    then have step: "maxStep test v (Some m) = Some v" by (simp add: maxStep_def)
    from Cons.IH [of v] obtain m' where
      m': "fold (maxStep test) vs (Some v) = Some m'" "m' = v \<or> (m' \<in> set vs \<and> test m')"
          "compare v m' \<le> 0" "\<forall>w\<in>set vs. test w \<longrightarrow> compare w m' \<le> 0"
      by blast
    from True have "compare m v \<le> 0" by simp
    then have "compare m m' \<le> 0" using m'(3) by (rule compare_trans)
    with m' step True show ?thesis by auto
  next
    case False
    then have step: "maxStep test v (Some m) = Some m" by (auto simp: maxStep_def)
    from Cons.IH [of m] obtain m' where
      m': "fold (maxStep test) vs (Some m) = Some m'" "m' = m \<or> (m' \<in> set vs \<and> test m')"
          "compare m m' \<le> 0" "\<forall>w\<in>set vs. test w \<longrightarrow> compare w m' \<le> 0"
      by blast
    have "compare v m' \<le> 0" if "test v"
    proof -
      from that False have "compare m v \<noteq> - 1" by simp
      with compare_range [of m v] compare_flip [of m v] have "compare v m \<le> 0" by auto
      then show ?thesis using m'(3) by (rule compare_trans)
    qed
    with m' step show ?thesis by auto
  qed
qed

lemma fold_maxStep_None_empty:
  "\<forall>w\<in>set vs. \<not> test w \<Longrightarrow> fold (maxStep test) vs None = None"
  by (induction vs) (simp_all add: maxStep_def)

lemma fold_maxStep_None_found:
  "\<exists>w\<in>set vs. test w \<Longrightarrow>
   \<exists>m\<in>set vs. test m \<and> fold (maxStep test) vs None = Some m \<and>
     (\<forall>w\<in>set vs. test w \<longrightarrow> compare w m \<le> 0)"
proof (induction vs)
  case Nil
  then show ?case by simp
next
  case (Cons v vs)
  show ?case
  proof (cases "test v")
    case True
    then have step: "maxStep test v None = Some v" by (simp add: maxStep_def)
    from fold_maxStep_Some [of test vs v] obtain m' where
      m': "fold (maxStep test) vs (Some v) = Some m'" "m' = v \<or> (m' \<in> set vs \<and> test m')"
          "compare v m' \<le> 0" "\<forall>w\<in>set vs. test w \<longrightarrow> compare w m' \<le> 0"
      by blast
    with True step show ?thesis by auto
  next
    case False
    then have step: "maxStep test v None = None" by (simp add: maxStep_def)
    from False Cons.prems have "\<exists>w\<in>set vs. test w" by auto
    from Cons.IH [OF this] step False show ?thesis by auto
  qed
qed

lemma parseQtIndex_map_filter:
  "parseQtIndex coerce resp = List.map_filter coerce (map linkText resp)"
  by (induction resp) (simp_all add: List.map_filter_simps split: option.splits)

text \<open>
  Claim C1. For every listing document, \<open>requestQtIndex\<close> returns the canonical text of the
  greatest version, in the precedence order of semantic versioning, among the versions
  coerced from the link texts that satisfy the constraint (whenever one does); labels
  that coerce to nothing are dropped. On the listing with the labels 4.5.0, 4.6.1,
  notaversion and Parent Directory and the constraint ^4.5.0 the result is 4.6.1.
\<close>

theorem requestQtIndex_max_satisfying:
  assumes "\<exists>v\<in>set (parseQtIndex coerce resp). satisfies mkRange v requestedVersion"
  shows "parseQtIndex coerce resp = List.map_filter coerce (map linkText resp) \<and>
         (\<exists>m\<in>set (parseQtIndex coerce resp).
            satisfies mkRange m requestedVersion \<and>
            (\<forall>w\<in>set (parseQtIndex coerce resp).
               satisfies mkRange w requestedVersion \<longrightarrow> compare w m \<le> 0) \<and>
            requestQtIndex coerce mkRange (Some resp) requestedVersion = Inr (version m))"
proof -
  from assms obtain test where t: "mkRange requestedVersion = Some test"
    by (cases "mkRange requestedVersion") (auto simp: satisfies_def)
  then have sat: "\<And>v. satisfies mkRange v requestedVersion = test v"
    by (simp add: satisfies_def)
  with assms have "\<exists>w\<in>set (parseQtIndex coerce resp). test w" by simp
  from fold_maxStep_None_found [OF this] obtain m where
    m: "m \<in> set (parseQtIndex coerce resp)" "test m"
       "fold (maxStep test) (parseQtIndex coerce resp) None = Some m"
       "\<forall>w\<in>set (parseQtIndex coerce resp). test w \<longrightarrow> compare w m \<le> 0"
    by blast
  from m(3) t have "requestQtIndex coerce mkRange (Some resp) requestedVersion = Inr (version m)"
    by (simp add: requestQtIndex_def maxSatisfying_def)
  with m sat show ?thesis using parseQtIndex_map_filter by auto
qed

theorem requestQtIndex_max_satisfying_witness:
  "(\<exists>v\<in>set (parseQtIndex readVersion sampleIndex). satisfies caretRange v ''^4.5.0'') \<and>
   map linkText sampleIndex = [''Parent Directory'', ''4.5.0'', ''4.6.1'', ''notaversion''] \<and>
   requestQtIndex readVersion caretRange (Some sampleIndex) ''^4.5.0'' = Inr ''4.6.1''"
proof -
  have v: "parseQtIndex readVersion sampleIndex =
      [\<lparr>major = 4, minor = 5, patch = 0, prerelease = []\<rparr>,
       \<lparr>major = 4, minor = 6, patch = 1, prerelease = []\<rparr>]"
    by code_simp
  have s: "satisfies caretRange \<lparr>major = 4, minor = 5, patch = 0, prerelease = []\<rparr> ''^4.5.0''"
    by code_simp
  have h: "\<exists>v\<in>set (parseQtIndex readVersion sampleIndex). satisfies caretRange v ''^4.5.0''"
    using s by (simp add: v)
  have r: "requestQtIndex readVersion caretRange (Some sampleIndex) ''^4.5.0'' = Inr ''4.6.1''"
    by code_simp
  have l: "map linkText sampleIndex = [''Parent Directory'', ''4.5.0'', ''4.6.1'', ''notaversion'']"
    by (simp add: sampleIndex_def)
  show ?thesis
    using requestQtIndex_max_satisfying [OF h] h r l by simp
qed

text \<open>
  Claim C5. When no coerced version satisfies the constraint, in particular when no label
  coerces to a version, \<open>requestQtIndex\<close> fails with the error that carries all the
  versions found, and returns no value.
\<close>

theorem requestQtIndex_no_match:
  assumes "\<forall>v\<in>set (parseQtIndex coerce resp). \<not> satisfies mkRange v requestedVersion"
  shows "requestQtIndex coerce mkRange (Some resp) requestedVersion =
           Inl (NoMatchingVersion (parseQtIndex coerce resp))"
proof (cases "mkRange requestedVersion")
  case None
  then show ?thesis by (simp add: requestQtIndex_def maxSatisfying_def)
next
  case (Some test)
  with assms have "\<forall>w\<in>set (parseQtIndex coerce resp). \<not> test w"
    by (simp add: satisfies_def)
  from fold_maxStep_None_empty [OF this] Some show ?thesis
    by (simp add: requestQtIndex_def maxSatisfying_def)
qed

theorem requestQtIndex_no_match_witness:
  "parseQtIndex readVersion sampleIndexNoVersion = [] \<and>
   requestQtIndex readVersion caretRange (Some sampleIndexNoVersion) ''^4.5.0'' =
     Inl (NoMatchingVersion []) \<and>
   requestQtIndex readVersion caretRange (Some sampleIndex) ''^5.0.0'' =
     Inl (NoMatchingVersion
       [\<lparr>major = 4, minor = 5, patch = 0, prerelease = []\<rparr>,
        \<lparr>major = 4, minor = 6, patch = 1, prerelease = []\<rparr>])"
proof -
  have e: "parseQtIndex readVersion sampleIndexNoVersion = []"
    by code_simp
  have h1: "\<forall>v\<in>set (parseQtIndex readVersion sampleIndexNoVersion).
      \<not> satisfies caretRange v ''^4.5.0''"
    by (simp add: e)
  have v: "parseQtIndex readVersion sampleIndex =
      [\<lparr>major = 4, minor = 5, patch = 0, prerelease = []\<rparr>,
       \<lparr>major = 4, minor = 6, patch = 1, prerelease = []\<rparr>]"
    by code_simp
  have s1: "\<not> satisfies caretRange \<lparr>major = 4, minor = 5, patch = 0, prerelease = []\<rparr> ''^5.0.0''"
    by code_simp
  have s2: "\<not> satisfies caretRange \<lparr>major = 4, minor = 6, patch = 1, prerelease = []\<rparr> ''^5.0.0''"
    by code_simp
  have h2: "\<forall>v\<in>set (parseQtIndex readVersion sampleIndex). \<not> satisfies caretRange v ''^5.0.0''"
    using s1 s2 by (simp add: v)
  show ?thesis
    using requestQtIndex_no_match [OF h1] requestQtIndex_no_match [OF h2] e v by simp
qed

section \<open>Artifact selection\<close>

lemma linkSelected_qualifies:
  "installerExtension \<noteq> [] \<Longrightarrow>
   linkSelected installerExtension (gte v v4_7_0) (gte v v4_8_1) arch (Some l) =
     qualifies v installerExtension arch l"
  by (auto simp: linkSelected_def qualifies_def truthy_def endsWith_def)

lemma eachLink_last:
  "eachLink resolve qtPageUrl ext lin win arch resp installerLink =
     (let q = filter (\<lambda>l. linkSelected ext lin win arch (Some l)) (List.map_filter href resp)
      in if q = [] then installerLink else resolve qtPageUrl (last q))"
proof (induction resp arbitrary: installerLink)
  case Nil
  then show ?case by (simp add: List.map_filter_simps)
next
  case (Cons elem rest)
  show ?case
  proof (cases "href elem")
    case None
    with Cons show ?thesis by (simp add: List.map_filter_simps)
  next
    case (Some thisLink)
    with Cons show ?thesis by (simp add: List.map_filter_simps Let_def)
  qed
qed

text \<open>
  Claim C2. For every release listing, a link is selected exactly when its target path
  ends with the requested extension and, for \<^verbatim>\<open>run\<close> from version 4.7.0 on and for \<^verbatim>\<open>exe\<close>
  from version 4.8.1 on, also contains the architecture token (\<^verbatim>\<open>dmg\<close> is never gated by
  the architecture); when some link qualifies, the last qualifying one in document order
  is returned, resolved against the URL of the release listing. The extension is one of
  the installer extensions, so it is not empty.
\<close>

theorem getInstallerLink_last_qualifying:
  assumes "parse requestedVersion = Some v"
      and "installerExtension \<noteq> []"
      and "filter (qualifies v installerExtension arch) (List.map_filter href resp) \<noteq> []"
  shows "(\<forall>l. linkSelected installerExtension (gte v v4_7_0) (gte v v4_8_1) arch (Some l) =
              qualifies v installerExtension arch l) \<and>
         linkSelected installerExtension (gte v v4_7_0) (gte v v4_8_1) arch None = False \<and>
         (installerExtension = ''dmg'' \<longrightarrow>
            (\<forall>l. qualifies v installerExtension arch l = endsWith l ''dmg'')) \<and>
         getInstallerLinkForSpecificVersion resolve parse (Some resp) requestedVersion
             installerExtension arch =
           Inr (resolve (resolve ROOT_QTIFW_URL requestedVersion @ ''/'')
                  (last (filter (qualifies v installerExtension arch)
                     (List.map_filter href resp))))"
proof -
  have sel: "(\<lambda>l. linkSelected installerExtension (gte v v4_7_0) (gte v v4_8_1) arch (Some l)) =
             qualifies v installerExtension arch"
    using linkSelected_qualifies [OF assms(2)] by auto
  have dmg: "installerExtension = ''dmg'' \<longrightarrow>
            (\<forall>l. qualifies v installerExtension arch l = endsWith l ''dmg'')"
    by (simp add: qualifies_def)
  have run: "getInstallerLinkForSpecificVersion resolve parse (Some resp) requestedVersion
             installerExtension arch =
           Inr (resolve (resolve ROOT_QTIFW_URL requestedVersion @ ''/'')
                  (last (filter (qualifies v installerExtension arch)
                     (List.map_filter href resp))))"
    using assms(1,3)
    by (simp add: getInstallerLinkForSpecificVersion_def eachLink_last sel looseEqualsNull_def Let_def)
  show ?thesis
    using linkSelected_qualifies [OF assms(2)] dmg run
    by (simp add: linkSelected_def)
qed

theorem getInstallerLink_last_qualifying_witness:
  "readVersion ''4.7.0'' = Some \<lparr>major = 4, minor = 7, patch = 0, prerelease = []\<rparr> \<and>
   filter (qualifies \<lparr>major = 4, minor = 7, patch = 0, prerelease = []\<rparr> ''run'' ''arm64'')
     (List.map_filter href sampleRelease) = [''installer-arm64.run''] \<and>
   getInstallerLinkForSpecificVersion joinUrl readVersion (Some sampleRelease) ''4.7.0''
     ''run'' ''arm64'' =
   Inr ''https://download.qt.io/official_releases/qt-installer-framework/4.7.0/installer-arm64.run''"
proof -
  have p: "readVersion ''4.7.0'' = Some \<lparr>major = 4, minor = 7, patch = 0, prerelease = []\<rparr>"
    by code_simp
  have e: "''run'' \<noteq> []" by simp
  have q: "filter (qualifies \<lparr>major = 4, minor = 7, patch = 0, prerelease = []\<rparr> ''run'' ''arm64'')
     (List.map_filter href sampleRelease) = [''installer-arm64.run'']"
    by code_simp
  have n: "filter (qualifies \<lparr>major = 4, minor = 7, patch = 0, prerelease = []\<rparr> ''run'' ''arm64'')
     (List.map_filter href sampleRelease) \<noteq> []"
    by (simp add: q)
  have j: "joinUrl (joinUrl ROOT_QTIFW_URL ''4.7.0'' @ ''/'') (last [''installer-arm64.run'']) =
    ''https://download.qt.io/official_releases/qt-installer-framework/4.7.0/installer-arm64.run''"
    by code_simp
  note t = getInstallerLink_last_qualifying
            [where parse = readVersion and resolve = joinUrl and resp = sampleRelease, OF p e n]
  from t [THEN conjunct2, THEN conjunct2, THEN conjunct2]
  have r: "getInstallerLinkForSpecificVersion joinUrl readVersion (Some sampleRelease) ''4.7.0''
     ''run'' ''arm64'' =
   Inr ''https://download.qt.io/official_releases/qt-installer-framework/4.7.0/installer-arm64.run''"
    unfolding q j .
  show ?thesis
    by (rule conjI [OF p conjI [OF q r]])
qed

text \<open>
  Claim C4. On a release listing in which no link is selected the function does not fail
  with the error for a missing artifact: \<^verbatim>\<open>installerLink\<close> starts as the empty string, the
  test \<^verbatim>\<open>installerLink == null\<close> is false of it, and the empty string is returned.
\<close>

theorem getInstallerLink_none_returns_empty:
  assumes "parse requestedVersion = Some v"
      and "filter (\<lambda>l. linkSelected installerExtension (gte v v4_7_0) (gte v v4_8_1) arch (Some l))
             (List.map_filter href resp) = []"
  shows "getInstallerLinkForSpecificVersion resolve parse (Some resp) requestedVersion
           installerExtension arch = Inr []"
  using assms
  by (simp add: getInstallerLinkForSpecificVersion_def eachLink_last looseEqualsNull_def)

theorem getInstallerLink_none_returns_empty_witness:
  "readVersion ''4.6.0'' = Some \<lparr>major = 4, minor = 6, patch = 0, prerelease = []\<rparr> \<and>
   List.map_filter href sampleReleaseNoDmg = [''../'', ''installer-x64.exe''] \<and>
   getInstallerLinkForSpecificVersion joinUrl readVersion (Some sampleReleaseNoDmg) ''4.6.0''
     ''dmg'' ''arm64'' = Inr []"
proof -
  have p: "readVersion ''4.6.0'' = Some \<lparr>major = 4, minor = 6, patch = 0, prerelease = []\<rparr>"
    by code_simp
  have m: "List.map_filter href sampleReleaseNoDmg = [''../'', ''installer-x64.exe'']"
    by code_simp
  have n: "filter (\<lambda>l. linkSelected ''dmg''
                    (gte \<lparr>major = 4, minor = 6, patch = 0, prerelease = []\<rparr> v4_7_0)
                    (gte \<lparr>major = 4, minor = 6, patch = 0, prerelease = []\<rparr> v4_8_1)
                    ''arm64'' (Some l))
             (List.map_filter href sampleReleaseNoDmg) = []"
    by code_simp
  note t = getInstallerLink_none_returns_empty
             [where parse = readVersion and resolve = joinUrl, OF p n]
  show ?thesis
    by (rule conjI [OF p conjI [OF m t]])
qed

section \<open>The installer extension\<close>

text \<open>
  Claim C6. \<open>getInstallerExtension\<close> maps the windows token to exe, the darwin token to dmg
  and the linux token to run, and fails on every other text with the error that carries
  that text. The three tokens are constants of another file, distinct from one another.
\<close>

theorem getInstallerExtension_table:
  assumes "PLATFORM_DARWIN \<noteq> PLATFORM_WINDOWS"
      and "PLATFORM_LINUX \<noteq> PLATFORM_WINDOWS"
      and "PLATFORM_LINUX \<noteq> PLATFORM_DARWIN"
  shows "getInstallerExtension PLATFORM_WINDOWS PLATFORM_DARWIN PLATFORM_LINUX PLATFORM_WINDOWS
           = Inr ''exe'' \<and>
         getInstallerExtension PLATFORM_WINDOWS PLATFORM_DARWIN PLATFORM_LINUX PLATFORM_DARWIN
           = Inr ''dmg'' \<and>
         getInstallerExtension PLATFORM_WINDOWS PLATFORM_DARWIN PLATFORM_LINUX PLATFORM_LINUX
           = Inr ''run'' \<and>
         (platform \<noteq> PLATFORM_WINDOWS \<and> platform \<noteq> PLATFORM_DARWIN \<and>
              platform \<noteq> PLATFORM_LINUX \<longrightarrow>
            getInstallerExtension PLATFORM_WINDOWS PLATFORM_DARWIN PLATFORM_LINUX platform
              = Inl (UnsupportedPlatform platform))"
  using assms by (simp add: getInstallerExtension_def)

theorem getInstallerExtension_table_witness:
  "getInstallerExtension ''windows'' ''darwin'' ''linux'' ''windows'' = Inr ''exe'' \<and>
   getInstallerExtension ''windows'' ''darwin'' ''linux'' ''darwin'' = Inr ''dmg'' \<and>
   getInstallerExtension ''windows'' ''darwin'' ''linux'' ''linux'' = Inr ''run'' \<and>
   getInstallerExtension ''windows'' ''darwin'' ''linux'' ''freebsd''
     = Inl (UnsupportedPlatform ''freebsd'')"
proof -
  have a: "''darwin'' \<noteq> ''windows''" by simp
  have b: "''linux'' \<noteq> ''windows''" by simp
  have c: "''linux'' \<noteq> ''darwin''" by simp
  have d: "''freebsd'' \<noteq> ''windows'' \<and> ''freebsd'' \<noteq> ''darwin'' \<and> ''freebsd'' \<noteq> ''linux''"
    by simp
  note t = getInstallerExtension_table [OF a b c, where platform = "''freebsd''"]
  note t1 = t [THEN conjunct1]
  note t2 = t [THEN conjunct2, THEN conjunct1]
  note t3 = t [THEN conjunct2, THEN conjunct2, THEN conjunct1]
  note t4 = t [THEN conjunct2, THEN conjunct2, THEN conjunct2, THEN mp, OF d]
  show ?thesis
    by (rule conjI [OF t1 conjI [OF t2 conjI [OF t3 t4]]])
qed

section \<open>Mirror selection\<close>

subsection \<open>The filters\<close>

lemma fold_flag:
  "fold (\<lambda>blacklisted isUrlBlackListed.
            if includesStr (toLowerCase link) (toLowerCase blacklisted) then True
            else isUrlBlackListed) tried acc =
   (acc \<or> (\<exists>b\<in>set tried. includesStr (toLowerCase link) (toLowerCase b)))"
  by (induction tried arbitrary: acc) auto

lemma filterOutUrl_Some:
  "filterOutUrl link (Some tried) =
     (\<exists>b\<in>set tried. includesStr (toLowerCase link) (toLowerCase b))"
  by (simp add: filterOutUrl_def fold_flag)

lemma filterOutUrl_None: "filterOutUrl link None = False"
  by (simp add: filterOutUrl_def)

lemma filterOutUrl_append:
  "filterOutUrl link (Some (tried @ extra)) =
     (filterOutUrl link (Some tried) \<or> filterOutUrl link (Some extra))"
  by (auto simp: filterOutUrl_Some)

lemma eachUrl_append:
  "eachUrl toNumber tried (xs @ ys) = eachUrl toNumber tried xs @ eachUrl toNumber tried ys"
  by (induction xs) (simp_all split: option.splits)

lemma eachUrl_not_blacklisted:
  "m \<in> set (eachUrl toNumber tried resp) \<Longrightarrow> \<not> isUrlBlackListed (url m)"
  by (induction resp) (auto split: option.splits if_splits)

lemma eachUrl_more:
  "eachUrl toNumber (Some (tried @ extra)) resp =
     filter (\<lambda>m. \<not> filterOutUrl (url m) (Some extra)) (eachUrl toNumber (Some tried) resp)"
  by (induction resp) (simp_all add: filterOutUrl_append split: option.splits)

lemma eachUrl_Some_None:
  "eachUrl toNumber (Some extra) resp =
     filter (\<lambda>m. \<not> filterOutUrl (url m) (Some extra)) (eachUrl toNumber None resp)"
  by (induction resp) (simp_all add: filterOutUrl_None split: option.splits)

lemma eachUrl_Nil_None: "eachUrl toNumber (Some []) resp = eachUrl toNumber None resp"
  by (induction resp) (simp_all add: filterOutUrl_None filterOutUrl_Some split: option.splits)

lemma filter_blacklisteds:
  "filter (\<lambda>m. \<not> filterOutUrl (url m) (Some blacklisteds)) (eachUrl toNumber tried resp) =
     eachUrl toNumber tried resp"
proof -
  have "\<forall>m\<in>set (eachUrl toNumber tried resp). \<not> filterOutUrl (url m) (Some blacklisteds)"
    using eachUrl_not_blacklisted [of _ toNumber tried resp]
    by (auto simp: isUrlBlackListed_def)
  then show ?thesis by (simp add: filter_id_conv)
qed

subsection \<open>The sort\<close>

lemma sortCompare_numbers:
  "priority a \<noteq> NaN \<Longrightarrow> priority b \<noteq> NaN \<Longrightarrow>
   (sortCompare a b \<le> 0) = (\<not> lowerPriority b a)"
  by (cases "priority a"; cases "priority b")
     (auto simp: sortCompare_def comparefn_def lowerPriority_def)

lemma lowerPriority_trans:
  "lowerPriority a b \<Longrightarrow> \<not> lowerPriority c b \<Longrightarrow> priority c \<noteq> NaN \<Longrightarrow> lowerPriority a c"
  by (cases "priority a"; cases "priority b"; cases "priority c")
     (auto simp: lowerPriority_def)

lemma not_lowerPriority_trans:
  "\<not> lowerPriority b a \<Longrightarrow> \<not> lowerPriority c b \<Longrightarrow> priority b \<noteq> NaN \<Longrightarrow>
   \<not> lowerPriority c a"
  by (cases "priority a"; cases "priority b"; cases "priority c")
     (auto simp: lowerPriority_def)

lemma insertSorted_not_Nil: "insertSorted x ys \<noteq> []"
  by (cases ys) simp_all

lemma hd_insertSorted:
  "hd (insertSorted x ys) = (if ys = [] \<or> sortCompare x (hd ys) \<le> 0 then x else hd ys)"
  by (cases ys) simp_all

lemma sortMirrors_Cons: "sortMirrors (x # xs) = insertSorted x (sortMirrors xs)"
  by (simp add: sortMirrors_def)

lemma sortMirrors_Nil_iff: "sortMirrors xs = [] \<longleftrightarrow> xs = []"
  by (cases xs) (simp_all add: sortMirrors_def insertSorted_not_Nil)

lemma hd_sortMirrors:
  assumes "mirrors \<noteq> []" and "\<forall>m\<in>set mirrors. priority m \<noteq> NaN"
  shows "\<exists>before m after. mirrors = before @ m # after \<and>
           (\<forall>x\<in>set before. lowerPriority m x) \<and>
           (\<forall>x\<in>set after. \<not> lowerPriority x m) \<and>
           hd (sortMirrors mirrors) = m"
  using assms
proof (induction mirrors)
  case Nil
  then show ?case by simp
next
  case (Cons x xs)
  show ?case
  proof (cases "xs = []")
    case True
    then have "x # xs = [] @ x # [] \<and> hd (sortMirrors (x # xs)) = x"
      by (simp add: sortMirrors_def)
    then show ?thesis using True by fastforce
  next
    case False
    from Cons.prems have num: "\<forall>m\<in>set xs. priority m \<noteq> NaN" and px: "priority x \<noteq> NaN"
      by simp_all
    from Cons.IH [OF False num] obtain before m after where
      m: "xs = before @ m # after" "\<forall>y\<in>set before. lowerPriority m y"
         "\<forall>y\<in>set after. \<not> lowerPriority y m" "hd (sortMirrors xs) = m"
      by blast
    from m(1) num have pm: "priority m \<noteq> NaN" by simp
    from False have ne: "sortMirrors xs \<noteq> []" by (simp add: sortMirrors_Nil_iff)
    show ?thesis
    proof (cases "sortCompare x m \<le> 0")
      case True
      then have xm: "\<not> lowerPriority m x" using px pm by (simp add: sortCompare_numbers)
      have hd: "hd (sortMirrors (x # xs)) = x"
        using True m(4) ne by (simp add: sortMirrors_Cons hd_insertSorted)
      have "\<not> lowerPriority y x" if "y \<in> set xs" for y
      proof -
        from that m(1) consider "y \<in> set before" | "y = m" | "y \<in> set after" by auto
        then show ?thesis
        proof cases
          case 1
          with m(2) have "lowerPriority m y" by simp
          then have "\<not> lowerPriority y m"
            by (cases "priority m"; cases "priority y") (auto simp: lowerPriority_def)
          with xm pm show ?thesis using not_lowerPriority_trans by blast
        next
          case 2
          with xm show ?thesis by simp
        next
          case 3
          with m(3) have "\<not> lowerPriority y m" by simp
          with xm pm show ?thesis using not_lowerPriority_trans by blast
        qed
      qed
      then have "x # xs = [] @ x # xs \<and> (\<forall>y\<in>set []. lowerPriority x y) \<and>
          (\<forall>y\<in>set xs. \<not> lowerPriority y x) \<and> hd (sortMirrors (x # xs)) = x"
        using hd by simp
      then show ?thesis by blast
    next
      case False
      then have xm: "lowerPriority m x" using px pm by (simp add: sortCompare_numbers)
      have hd: "hd (sortMirrors (x # xs)) = m"
        using False m(4) ne by (simp add: sortMirrors_Cons hd_insertSorted)
      have "x # xs = (x # before) @ m # after \<and> (\<forall>y\<in>set (x # before). lowerPriority m y) \<and>
          (\<forall>y\<in>set after. \<not> lowerPriority y m) \<and> hd (sortMirrors (x # xs)) = m"
        using m xm hd by simp
      then show ?thesis by blast
    qed
  qed
qed

subsection \<open>The choice of the mirror\<close>

text \<open>
  Claim C3, as the code has it. When some mirror entry survives the filters and the
  priority of every surviving entry is a number, \<open>getMirrorLinkForSpecificLink\<close> returns
  the URL of the surviving entry with the lowest priority, the first such entry in
  document order: every surviving entry before it has a strictly higher priority and no
  surviving entry after it has a lower one. On the mirrors with priorities 20, 10 and 10
  the second one is returned.
\<close>

theorem getMirrorLink_lowest_priority_first:
  assumes "eachUrl toNumber alreadyTriedUrls resp \<noteq> []"
      and "\<forall>m\<in>set (eachUrl toNumber alreadyTriedUrls resp). priority m \<noteq> NaN"
  shows "\<exists>before m after.
           eachUrl toNumber alreadyTriedUrls resp = before @ m # after \<and>
           (\<forall>x\<in>set before. lowerPriority m x) \<and>
           (\<forall>x\<in>set after. \<not> lowerPriority x m) \<and>
           getMirrorLinkForSpecificLink toNumber (Some resp) originalUrl alreadyTriedUrls =
             Inr (url m)"
proof -
  from hd_sortMirrors [OF assms] obtain before m after where
    m: "eachUrl toNumber alreadyTriedUrls resp = before @ m # after"
       "\<forall>x\<in>set before. lowerPriority m x" "\<forall>x\<in>set after. \<not> lowerPriority x m"
       "hd (sortMirrors (eachUrl toNumber alreadyTriedUrls resp)) = m"
    by blast
  from assms(1) have "sortMirrors (eachUrl toNumber alreadyTriedUrls resp) \<noteq> []"
    by (simp add: sortMirrors_Nil_iff)
  then have "sortMirrors (eachUrl toNumber alreadyTriedUrls resp) ! 0 = m"
    using m(4) by (simp add: hd_conv_nth)
  with assms(1) have
    "getMirrorLinkForSpecificLink toNumber (Some resp) originalUrl alreadyTriedUrls = Inr (url m)"
    by (simp add: getMirrorLinkForSpecificLink_def)
  with m(1,2,3) show ?thesis by blast
qed

theorem getMirrorLink_lowest_priority_first_witness:
  "eachUrl readNumber None sampleMeta =
     [\<lparr>priority = Num 20, url = ''https://a.example/f.run''\<rparr>,
      \<lparr>priority = Num 10, url = ''https://b.example/f.run''\<rparr>,
      \<lparr>priority = Num 10, url = ''https://c.example/f.run''\<rparr>] \<and>
   getMirrorLinkForSpecificLink readNumber (Some sampleMeta) ''https://download.qt.io/f.run'' None
     = Inr ''https://b.example/f.run''"
proof -
  have e: "eachUrl readNumber None sampleMeta =
     [\<lparr>priority = Num 20, url = ''https://a.example/f.run''\<rparr>,
      \<lparr>priority = Num 10, url = ''https://b.example/f.run''\<rparr>,
      \<lparr>priority = Num 10, url = ''https://c.example/f.run''\<rparr>]"
    by code_simp
  have ne: "eachUrl readNumber None sampleMeta \<noteq> []"
    by (simp add: e)
  have num: "\<forall>m\<in>set (eachUrl readNumber None sampleMeta). priority m \<noteq> NaN"
    by (simp add: e)
  have s: "url (sortMirrors
     [\<lparr>priority = Num 20, url = ''https://a.example/f.run''\<rparr>,
      \<lparr>priority = Num 10, url = ''https://b.example/f.run''\<rparr>,
      \<lparr>priority = Num 10, url = ''https://c.example/f.run''\<rparr>] ! 0) = ''https://b.example/f.run''"
    by code_simp
  have r: "getMirrorLinkForSpecificLink readNumber (Some sampleMeta)
             ''https://download.qt.io/f.run'' None = Inr ''https://b.example/f.run''"
    by (simp add: getMirrorLinkForSpecificLink_def e s)
  show ?thesis
    using getMirrorLink_lowest_priority_first
            [OF ne num, where originalUrl = "''https://download.qt.io/f.run''"]
    by (intro conjI) (rule e, rule r)
qed

text \<open>
  A priority that is not a number is kept as \<^verbatim>\<open>NaN\<close>, and every comparison with it counts
  as a tie: the entry with the priority \<^verbatim>\<open>abc\<close> stands first and is returned, though the
  entry after it has the priority 10.
\<close>

theorem getMirrorLink_lowest_priority_counterexample:
  "eachUrl readNumber None sampleMetaWord =
     [\<lparr>priority = NaN, url = ''https://a.example/f.run''\<rparr>,
      \<lparr>priority = Num 10, url = ''https://b.example/f.run''\<rparr>] \<and>
   getMirrorLinkForSpecificLink readNumber (Some sampleMetaWord)
     ''https://download.qt.io/f.run'' None = Inr ''https://a.example/f.run''"
proof -
  have e: "eachUrl readNumber None sampleMetaWord =
     [\<lparr>priority = NaN, url = ''https://a.example/f.run''\<rparr>,
      \<lparr>priority = Num 10, url = ''https://b.example/f.run''\<rparr>]"
    by code_simp
  have s: "url (sortMirrors
     [\<lparr>priority = NaN, url = ''https://a.example/f.run''\<rparr>,
      \<lparr>priority = Num 10, url = ''https://b.example/f.run''\<rparr>] ! 0) = ''https://a.example/f.run''"
    by code_simp
  have r: "getMirrorLinkForSpecificLink readNumber (Some sampleMetaWord)
             ''https://download.qt.io/f.run'' None = Inr ''https://a.example/f.run''"
    by (simp add: getMirrorLinkForSpecificLink_def e s)
  show ?thesis by (rule conjI [OF e r])
qed

text \<open>
  Claim C7, as the code has it. An entry whose text is empty, or whose priority attribute
  is missing or empty, is skipped: the candidates and the result are those of the document
  without the entry, so the entry makes no call fail. An entry with a text and a non-empty
  priority that passes the two filters is a candidate whatever its priority converts to,
  a number or \<^verbatim>\<open>NaN\<close>.
\<close>

theorem getMirrorLink_skips_incomplete_entries:
  "(elemText e = [] \<or> priorityAttr e = None \<or> priorityAttr e = Some [] \<longrightarrow>
      eachUrl toNumber alreadyTriedUrls (xs @ e # ys) = eachUrl toNumber alreadyTriedUrls (xs @ ys) \<and>
      getMirrorLinkForSpecificLink toNumber (Some (xs @ e # ys)) originalUrl alreadyTriedUrls =
        getMirrorLinkForSpecificLink toNumber (Some (xs @ ys)) originalUrl alreadyTriedUrls) \<and>
   (elemText e \<noteq> [] \<and> priorityAttr e = Some p \<and> p \<noteq> [] \<and>
    \<not> isUrlBlackListed (elemText e) \<and> \<not> filterOutUrl (elemText e) alreadyTriedUrls \<longrightarrow>
      eachUrl toNumber alreadyTriedUrls (xs @ e # ys) =
        eachUrl toNumber alreadyTriedUrls xs @
        \<lparr>priority = toNumber p, url = elemText e\<rparr> # eachUrl toNumber alreadyTriedUrls ys)"
proof -
  have skip: "eachUrl toNumber alreadyTriedUrls (xs @ e # ys) =
              eachUrl toNumber alreadyTriedUrls (xs @ ys)"
    if "elemText e = [] \<or> priorityAttr e = None \<or> priorityAttr e = Some []"
    using that by (auto simp: eachUrl_append truthy_def split: option.splits)
  have keep: "eachUrl toNumber alreadyTriedUrls (xs @ e # ys) =
        eachUrl toNumber alreadyTriedUrls xs @
        \<lparr>priority = toNumber p, url = elemText e\<rparr> # eachUrl toNumber alreadyTriedUrls ys"
    if "elemText e \<noteq> [] \<and> priorityAttr e = Some p \<and> p \<noteq> [] \<and>
        \<not> isUrlBlackListed (elemText e) \<and> \<not> filterOutUrl (elemText e) alreadyTriedUrls"
    using that by (simp add: eachUrl_append truthy_def)
  show ?thesis
    using skip keep by (simp add: getMirrorLinkForSpecificLink_def)
qed

theorem getMirrorLink_skips_incomplete_entries_witness:
  "eachUrl readNumber None
     ([\<lparr>elemText = ''https://b.example/f.run'', priorityAttr = Some ''2''\<rparr>] @
      \<lparr>elemText = ''https://c.example/f.run'', priorityAttr = None\<rparr> # []) =
   eachUrl readNumber None
     ([\<lparr>elemText = ''https://b.example/f.run'', priorityAttr = Some ''2''\<rparr>] @ []) \<and>
   getMirrorLinkForSpecificLink readNumber
     (Some ([\<lparr>elemText = ''https://b.example/f.run'', priorityAttr = Some ''2''\<rparr>] @
            \<lparr>elemText = ''https://c.example/f.run'', priorityAttr = None\<rparr> # []))
     ''https://download.qt.io/f.run'' None =
   getMirrorLinkForSpecificLink readNumber
     (Some ([\<lparr>elemText = ''https://b.example/f.run'', priorityAttr = Some ''2''\<rparr>] @ []))
     ''https://download.qt.io/f.run'' None \<and>
   eachUrl readNumber None
     ([] @ \<lparr>elemText = ''https://a.example/f.run'', priorityAttr = Some ''abc''\<rparr> # []) =
   eachUrl readNumber None [] @
     \<lparr>priority = readNumber ''abc'', url = ''https://a.example/f.run''\<rparr> #
     eachUrl readNumber None []"
proof -
  have h1: "elemText \<lparr>elemText = ''https://c.example/f.run'', priorityAttr = None\<rparr> = [] \<or>
            priorityAttr \<lparr>elemText = ''https://c.example/f.run'', priorityAttr = None\<rparr> = None \<or>
            priorityAttr \<lparr>elemText = ''https://c.example/f.run'', priorityAttr = None\<rparr> = Some []"
    by simp
  have b: "\<not> isUrlBlackListed ''https://a.example/f.run''"
    by code_simp
  have h2: "elemText \<lparr>elemText = ''https://a.example/f.run'', priorityAttr = Some ''abc''\<rparr> \<noteq> [] \<and>
            priorityAttr \<lparr>elemText = ''https://a.example/f.run'', priorityAttr = Some ''abc''\<rparr>
              = Some ''abc'' \<and>
            ''abc'' \<noteq> [] \<and>
            \<not> isUrlBlackListed
                (elemText \<lparr>elemText = ''https://a.example/f.run'', priorityAttr = Some ''abc''\<rparr>) \<and>
            \<not> filterOutUrl
                (elemText \<lparr>elemText = ''https://a.example/f.run'', priorityAttr = Some ''abc''\<rparr>)
                None"
    using b by (simp add: filterOutUrl_def)
  note t1 = getMirrorLink_skips_incomplete_entries
    [where e = "\<lparr>elemText = ''https://c.example/f.run'', priorityAttr = None\<rparr>"
       and xs = "[\<lparr>elemText = ''https://b.example/f.run'', priorityAttr = Some ''2''\<rparr>]"
       and ys = "[]" and toNumber = readNumber and alreadyTriedUrls = None
       and originalUrl = "''https://download.qt.io/f.run''",
     THEN conjunct1, THEN mp, OF h1]
  note t2 = getMirrorLink_skips_incomplete_entries
    [where e = "\<lparr>elemText = ''https://a.example/f.run'', priorityAttr = Some ''abc''\<rparr>"
       and xs = "[]" and ys = "[]" and toNumber = readNumber and alreadyTriedUrls = None
       and p = "''abc''",
     THEN conjunct2, THEN mp, OF h2]
  show ?thesis
    using t1 t2 by simp
qed

text \<open>
  The only entry of the document has the priority \<^verbatim>\<open>first\<close>, which is no number: it is
  not skipped, but is the candidate whose URL is returned.
\<close>

theorem getMirrorLink_skips_counterexample:
  "eachUrl readNumber None sampleMetaOneWord =
     [\<lparr>priority = NaN, url = ''https://a.example/f.run''\<rparr>] \<and>
   getMirrorLinkForSpecificLink readNumber (Some sampleMetaOneWord)
     ''https://download.qt.io/f.run'' None = Inr ''https://a.example/f.run''"
proof -
  have e: "eachUrl readNumber None sampleMetaOneWord =
     [\<lparr>priority = NaN, url = ''https://a.example/f.run''\<rparr>]"
    by code_simp
  have r: "getMirrorLinkForSpecificLink readNumber (Some sampleMetaOneWord)
             ''https://download.qt.io/f.run'' None = Inr ''https://a.example/f.run''"
    by (simp add: getMirrorLinkForSpecificLink_def e sortMirrors_def)
  show ?thesis by (rule conjI [OF e r])
qed

text \<open>
  Claim C8. When no mirror entry is left after the blacklist and the already-tried
  filter, \<open>getMirrorLinkForSpecificLink\<close> fails with the error that carries the URL of the
  metalink document.
\<close>

theorem getMirrorLink_no_mirrors:
  assumes "eachUrl toNumber alreadyTriedUrls resp = []"
  shows "getMirrorLinkForSpecificLink toNumber (Some resp) originalUrl alreadyTriedUrls =
           Inl (NoMirrorsAvailable (originalUrl @ ''.meta4''))"
  using assms by (simp add: getMirrorLinkForSpecificLink_def)

theorem getMirrorLink_no_mirrors_witness:
  "eachUrl readNumber (Some [''b.example'']) sampleMetaGone = [] \<and>
   getMirrorLinkForSpecificLink readNumber (Some sampleMetaGone) ''https://download.qt.io/f.run''
     (Some [''b.example'']) = Inl (NoMirrorsAvailable ''https://download.qt.io/f.run.meta4'')"
proof -
  have e: "eachUrl readNumber (Some [''b.example'']) sampleMetaGone = []"
    by code_simp
  show ?thesis
    using getMirrorLink_no_mirrors [OF e, where originalUrl = "''https://download.qt.io/f.run''"] e
    by simp
qed

text \<open>
  Claim C9. Appending a URL to the already-tried list never adds a candidate: the
  candidates afterwards are among those before (also when the list was absent before).
  Passing the blacklist as the already-tried list, alone or behind other entries, changes
  no candidate.
\<close>

theorem mirror_filtering_monotonic:
  "set (eachUrl toNumber (Some (tried @ [u])) resp) \<subseteq> set (eachUrl toNumber (Some tried) resp) \<and>
   set (eachUrl toNumber (Some [u]) resp) \<subseteq> set (eachUrl toNumber None resp) \<and>
   eachUrl toNumber (Some blacklisteds) resp = eachUrl toNumber None resp \<and>
   eachUrl toNumber (Some (tried @ blacklisteds)) resp = eachUrl toNumber (Some tried) resp"
proof -
  have 1: "set (eachUrl toNumber (Some (tried @ [u])) resp)
             \<subseteq> set (eachUrl toNumber (Some tried) resp)"
    by (simp add: eachUrl_more)
  have 2: "set (eachUrl toNumber (Some [u]) resp) \<subseteq> set (eachUrl toNumber None resp)"
    by (simp add: eachUrl_Some_None [of toNumber "[u]"])
  have 3: "eachUrl toNumber (Some blacklisteds) resp = eachUrl toNumber None resp"
    by (simp add: eachUrl_Some_None [of toNumber blacklisteds] filter_blacklisteds)
  have 4: "eachUrl toNumber (Some (tried @ blacklisteds)) resp =
           eachUrl toNumber (Some tried) resp"
    by (simp add: eachUrl_more filter_blacklisteds)
  from 1 2 3 4 show ?thesis by blast
qed

theorem mirror_filtering_monotonic_witness:
  "eachUrl readNumber (Some [''b.example'']) sampleMeta =
     [\<lparr>priority = Num 20, url = ''https://a.example/f.run''\<rparr>,
      \<lparr>priority = Num 10, url = ''https://c.example/f.run''\<rparr>] \<and>
   eachUrl readNumber (Some ([''b.example''] @ [''HTTPS://C.example''])) sampleMeta =
     [\<lparr>priority = Num 20, url = ''https://a.example/f.run''\<rparr>] \<and>
   set (eachUrl readNumber (Some ([''b.example''] @ [''HTTPS://C.example''])) sampleMeta)
     \<subseteq> set (eachUrl readNumber (Some [''b.example'']) sampleMeta) \<and>
   eachUrl readNumber (Some blacklisteds) sampleMetaGone = eachUrl readNumber None sampleMetaGone \<and>
   eachUrl readNumber (Some ([''b.example''] @ blacklisteds)) sampleMetaGone =
     eachUrl readNumber (Some [''b.example'']) sampleMetaGone"
proof -
  have a: "eachUrl readNumber (Some [''b.example'']) sampleMeta =
     [\<lparr>priority = Num 20, url = ''https://a.example/f.run''\<rparr>,
      \<lparr>priority = Num 10, url = ''https://c.example/f.run''\<rparr>]"
    by code_simp
  have b: "eachUrl readNumber (Some ([''b.example''] @ [''HTTPS://C.example''])) sampleMeta =
     [\<lparr>priority = Num 20, url = ''https://a.example/f.run''\<rparr>]"
    by code_simp
  note t = mirror_filtering_monotonic
    [where toNumber = readNumber and tried = "[''b.example'']" and u = "''HTTPS://C.example''"
       and resp = sampleMeta]
  note g = mirror_filtering_monotonic
    [where toNumber = readNumber and tried = "[''b.example'']" and resp = sampleMetaGone]
  note c = t [THEN conjunct1]
  note d = g [THEN conjunct2, THEN conjunct2, THEN conjunct1]
  note f = g [THEN conjunct2, THEN conjunct2, THEN conjunct2]
  show ?thesis
    by (rule conjI [OF a conjI [OF b conjI [OF c conjI [OF d f]]]])
qed

text \<open>
  Claim C10. A call without the already-tried list behaves as a call with the empty list:
  the filter discards no entry in either case, and the candidates and the result are the
  same.
\<close>

theorem getMirrorLink_undefined_is_empty:
  "eachUrl toNumber None resp = eachUrl toNumber (Some []) resp \<and>
   getMirrorLinkForSpecificLink toNumber response originalUrl None =
     getMirrorLinkForSpecificLink toNumber response originalUrl (Some []) \<and>
   filterOutUrl link None = False \<and> filterOutUrl link (Some []) = False"
  by (cases response)
     (simp_all add: getMirrorLinkForSpecificLink_def eachUrl_Nil_None filterOutUrl_None
        filterOutUrl_Some)

theorem getMirrorLink_undefined_is_empty_witness:
  "eachUrl readNumber None sampleMeta = eachUrl readNumber (Some []) sampleMeta \<and>
   getMirrorLinkForSpecificLink readNumber (Some sampleMeta) ''https://download.qt.io/f.run'' None =
     getMirrorLinkForSpecificLink readNumber (Some sampleMeta) ''https://download.qt.io/f.run''
       (Some [])"
proof -
  note t = getMirrorLink_undefined_is_empty
    [where toNumber = readNumber and resp = sampleMeta and response = "Some sampleMeta"
       and originalUrl = "''https://download.qt.io/f.run''"]
  show ?thesis
    by (rule conjI [OF t [THEN conjunct1] t [THEN conjunct2, THEN conjunct1]])
qed

end
